theory Spec2Isabelle
  imports Complex_Main "HOL-Library.Sublist"
begin

section \<open>The place search route: data\<close>

text \<open>
  The development follows \<^verbatim>\<open>src/app/api/search-places/route.ts\<close>. JavaScript strings are
  modelled as \<^typ>\<open>string\<close>; the few non-ASCII letters of the Portuguese messages are written
  as their UTF-8 bytes. An optional field (\<^verbatim>\<open>f?: T\<close>) is an \<^typ>\<open>'a option\<close>, with
  \<^term>\<open>None\<close> for \<^verbatim>\<open>undefined\<close>. JavaScript numbers are only passed through and tested for
  truthiness, so they are modelled by their value as a \<^typ>\<open>real\<close>.
\<close>

type_synonym number = real

text \<open>A thrown value: an instance of \<^verbatim>\<open>Error\<close> with its message, or anything else.\<close>

datatype thrown = Error string | NonError

text \<open>Truthiness of an optional string and of an optional number, and the \<^verbatim>\<open>a || b\<close> idiom.\<close>

definition truthy_string :: "string option \<Rightarrow> bool" where
  "truthy_string v = (case v of None \<Rightarrow> False | Some s \<Rightarrow> s \<noteq> [])"

definition truthy_number :: "number option \<Rightarrow> bool" where
  "truthy_number v = (case v of None \<Rightarrow> False | Some n \<Rightarrow> n \<noteq> 0)"

definition or_string :: "string option \<Rightarrow> string \<Rightarrow> string" where
  "or_string v d = (case v of None \<Rightarrow> d | Some s \<Rightarrow> if s \<noteq> [] then s else d)"

text \<open>The element type of \<^verbatim>\<open>PlacesSearchResponse.results\<close>, and \<^verbatim>\<open>PlaceSearchResult\<close>,
  which adds the three fields of the detail lookup.\<close>

record search_item =
  place_id :: string
  name :: string
  vicinity :: string
  rating :: "number option"
  user_ratings_total :: "number option"
  types :: "string list"

record PlaceSearchResult = search_item +
  website :: "string option"
  formatted_phone_number :: "string option"
  formatted_address :: "string option"

record PlacesSearchResponse =
  results :: "search_item list"
  next_page_token :: "string option"
  status :: string

text \<open>\<^verbatim>\<open>PlaceDetailsResponse\<close>. The fields of \<^verbatim>\<open>result\<close> are prefixed, since the names are
  taken by \<^typ>\<open>PlaceSearchResult\<close>. The upstream API omits \<^verbatim>\<open>result\<close> when the lookup is
  refused, and \<^verbatim>\<open>formatted_address\<close> is read with a fallback, so both are optional here.\<close>

record details_result =
  det_website :: "string option"
  det_formatted_phone_number :: "string option"
  det_formatted_address :: "string option"

record PlaceDetailsResponse =
  det_result :: "details_result option"
  det_status :: string

text \<open>The geocoding response: its status and, for each candidate, the pair
  \<^verbatim>\<open>geometry.location.{lat, lng}\<close>.\<close>

record GeocodeResponse =
  geo_status :: string
  geo_results :: "(number \<times> number) list"

section \<open>The upstream API and the trace of outbound calls\<close>

text \<open>
  The three URL templates of the source are modelled by the data they interpolate
  (\<^verbatim>\<open>encodeURIComponent\<close> is applied to the location and to the keyword, and is taken to be
  total). A nearby search is either by coordinates, radius and keyword, or by page token.
\<close>

datatype query = ByLocation number number nat string | ByToken string

text \<open>An effect is an \<^verbatim>\<open>axios.get\<close> of one of the three endpoints, with the data
  interpolated into its URL (the API key last) and what the call returned or threw, or the pause
  of \<^verbatim>\<open>setTimeout\<close> (in milliseconds). The trace lists the effects in the order of issue.\<close>

datatype effect =
  GeocodeGet string string "thrown + GeocodeResponse"
| NearbySearchGet query string "thrown + PlacesSearchResponse"
| DetailsGet string string "thrown + PlaceDetailsResponse"
| Wait nat

type_synonym trace = "effect list"

text \<open>The upstream service answers each call as a function of everything that happened before
  it in the request, so that two identical calls may be answered differently.\<close>

record upstream =
  geocode_api :: "trace \<Rightarrow> string \<Rightarrow> string \<Rightarrow> thrown + GeocodeResponse"
  nearbysearch_api :: "trace \<Rightarrow> query \<Rightarrow> string \<Rightarrow> thrown + PlacesSearchResponse"
  details_api :: "trace \<Rightarrow> string \<Rightarrow> string \<Rightarrow> thrown + PlaceDetailsResponse"

section \<open>The clients\<close>

definition a_tilde :: string where "a_tilde = [CHR 0xC3, CHR 0xA3]"
definition c_cedilla :: string where "c_cedilla = [CHR 0xC3, CHR 0xA7]"
definition i_acute :: string where "i_acute = [CHR 0xC3, CHR 0xAD]"
definition o_acute :: string where "o_acute = [CHR 0xC3, CHR 0xB3]"
definition e_acute :: string where "e_acute = [CHR 0xC3, CHR 0xA9]"
definition u_acute :: string where "u_acute = [CHR 0xC3, CHR 0xBA]"
definition o_tilde :: string where "o_tilde = [CHR 0xC3, CHR 0xB5]"

definition location_not_found :: string where
  "location_not_found =
     ''N'' @ a_tilde @ ''o foi poss'' @ i_acute @ ''vel encontrar a localiza'' @ c_cedilla
       @ a_tilde @ ''o especificada''"

definition getPlaceDetails ::
  "upstream \<Rightarrow> string \<Rightarrow> string \<Rightarrow> trace \<Rightarrow> (thrown + PlaceDetailsResponse) \<times> trace" where
  "getPlaceDetails up placeId apiKey tr =
     (let response = details_api up tr placeId apiKey
      in (response, tr @ [DetailsGet placeId apiKey response]))"

text \<open>The URL of the nearby search: the one with \<^verbatim>\<open>pagetoken\<close> replaces the one with
  coordinates and keyword when the token is truthy.\<close>

definition nearbysearch_query :: "number \<Rightarrow> number \<Rightarrow> string \<Rightarrow> string option \<Rightarrow> query" where
  "nearbysearch_query lat lng serviceType pageToken =
     (case pageToken of
        None \<Rightarrow> ByLocation lat lng 5000 serviceType
      | Some t \<Rightarrow> if t \<noteq> [] then ByToken t else ByLocation lat lng 5000 serviceType)"

definition searchPlaces ::
  "upstream \<Rightarrow> string \<Rightarrow> string \<Rightarrow> string \<Rightarrow> string option \<Rightarrow> trace
     \<Rightarrow> (thrown + PlacesSearchResponse) \<times> trace" where
  "searchPlaces up serviceType location apiKey pageToken tr =
     (let geocodeResponse = geocode_api up tr location apiKey;
          tr1 = tr @ [GeocodeGet location apiKey geocodeResponse]
      in case geocodeResponse of
           Inl e \<Rightarrow> (Inl e, tr1)
         | Inr gdata \<Rightarrow>
             if geo_status gdata \<noteq> ''OK'' \<or> geo_results gdata = []
             then (Inl (Error location_not_found), tr1)
             else
               (case hd (geo_results gdata) of
                  (lat, lng) \<Rightarrow>
                    let url = nearbysearch_query lat lng serviceType pageToken;
                        response = nearbysearch_api up tr1 url apiKey
                    in (response, tr1 @ [NearbySearchGet url apiKey response])))"

section \<open>The aggregation loop\<close>

text \<open>The callback of \<^verbatim>\<open>response.results.map\<close>: the record spread with the three detail
  fields, or with the defaults of the \<^verbatim>\<open>catch\<close> branch. Reading a field of an absent
  \<^verbatim>\<open>result\<close> throws inside the \<^verbatim>\<open>try\<close>, so it ends in the same branch as a failed call.
  The logging of \<^verbatim>\<open>console.error\<close> has no effect on the result and is left out.\<close>

definition with_defaults :: "search_item \<Rightarrow> PlaceSearchResult" where
  "with_defaults place =
     search_item.extend place (PlaceSearchResult.fields (Some []) (Some []) (Some (vicinity place)))"

definition with_details :: "search_item \<Rightarrow> details_result \<Rightarrow> PlaceSearchResult" where
  "with_details place r =
     search_item.extend place
       (PlaceSearchResult.fields
          (Some (or_string (det_website r) []))
          (Some (or_string (det_formatted_phone_number r) []))
          (Some (or_string (det_formatted_address r) (vicinity place))))"

definition merge_reply :: "search_item \<Rightarrow> thrown + PlaceDetailsResponse \<Rightarrow> PlaceSearchResult" where
  "merge_reply place response =
     (case response of
        Inl e \<Rightarrow> with_defaults place
      | Inr details \<Rightarrow>
          (case det_result details of
             None \<Rightarrow> with_defaults place
           | Some r \<Rightarrow> with_details place r))"

definition enrich :: "upstream \<Rightarrow> string \<Rightarrow> search_item \<Rightarrow> trace \<Rightarrow> PlaceSearchResult \<times> trace" where
  "enrich up apiKey place tr =
     (case getPlaceDetails up (place_id place) apiKey tr of
        (response, tr') \<Rightarrow> (merge_reply place response, tr'))"

text \<open>\<^verbatim>\<open>Promise.all(response.results.map(...))\<close>: the lookups are issued in record order and
  the results are collected in record order. The model answers them one after the other.\<close>

fun detailedResults ::
  "upstream \<Rightarrow> string \<Rightarrow> search_item list \<Rightarrow> trace \<Rightarrow> PlaceSearchResult list \<times> trace" where
  "detailedResults up apiKey [] tr = ([], tr)"
| "detailedResults up apiKey (place # places) tr =
     (case enrich up apiKey place tr of
        (d, tr1) \<Rightarrow>
          (case detailedResults up apiKey places tr1 of
             (ds, tr2) \<Rightarrow> (d # ds, tr2)))"

definition maxPages :: nat where
  "maxPages = 3"

text \<open>The body of the \<^verbatim>\<open>do\<close> loop up to the end of the fan-out: the pause before a token
  request, the search, the status check and the detail lookups. It yields the enriched records
  of the page and the page's \<^verbatim>\<open>next_page_token\<close>.\<close>

definition fetch_page ::
  "upstream \<Rightarrow> string \<Rightarrow> string \<Rightarrow> string \<Rightarrow> string option \<Rightarrow> trace
     \<Rightarrow> (thrown + PlaceSearchResult list \<times> string option) \<times> trace" where
  "fetch_page up serviceType location apiKey nextPageToken tr =
     (let tr0 = (if truthy_string nextPageToken then tr @ [Wait 2000] else tr)
      in case searchPlaces up serviceType location apiKey nextPageToken tr0 of
           (Inl e, tr1) \<Rightarrow> (Inl e, tr1)
         | (Inr response, tr1) \<Rightarrow>
             if status response \<noteq> ''OK''
             then (Inl (Error (''Erro na API do Google Places: '' @ status response)), tr1)
             else
               (case detailedResults up apiKey (results response) tr1 of
                  (detailed, tr2) \<Rightarrow> (Inr (detailed, next_page_token response), tr2)))"

function getAllPlaces_loop ::
  "upstream \<Rightarrow> string \<Rightarrow> string \<Rightarrow> string \<Rightarrow> PlaceSearchResult list \<Rightarrow> string option \<Rightarrow> nat
     \<Rightarrow> trace \<Rightarrow> (thrown + PlaceSearchResult list) \<times> trace" where
  "getAllPlaces_loop up serviceType location apiKey allResults nextPageToken currentPage tr =
     (case fetch_page up serviceType location apiKey nextPageToken tr of
        (Inl e, tr') \<Rightarrow> (Inl e, tr')
      | (Inr (detailed, token), tr') \<Rightarrow>
          if truthy_string token \<and> currentPage + 1 < maxPages
          then getAllPlaces_loop up serviceType location apiKey (allResults @ detailed) token
                 (currentPage + 1) tr'
          else (Inr (allResults @ detailed), tr'))"
  by pat_completeness auto
termination
  by (relation "measure (\<lambda>(up, serviceType, location, apiKey, allResults, nextPageToken,
        currentPage, tr). maxPages - currentPage)") auto

declare getAllPlaces_loop.simps [simp del]

definition getAllPlaces ::
  "upstream \<Rightarrow> string \<Rightarrow> string \<Rightarrow> string \<Rightarrow> (thrown + PlaceSearchResult list) \<times> trace" where
  "getAllPlaces up serviceType location apiKey =
     getAllPlaces_loop up serviceType location apiKey [] None 0 []"

section \<open>The spreadsheet\<close>

datatype cell = CellBlank | CellNumber number | CellText string

record column =
  header :: string
  key :: string
  width :: nat

record sheet_row =
  cell_name :: cell
  cell_address :: cell
  cell_rating :: cell
  cell_ratings_count :: cell
  cell_has_website :: cell
  cell_website :: cell
  cell_phone :: cell
  cell_business_type :: cell

record worksheet =
  sheet_name :: string
  columns :: "column list"
  header_bold :: bool
  header_fill :: string
  rows :: "sheet_row list"
  rating_numFmt :: string
  autoFilter :: "(nat \<times> nat) \<times> (nat \<times> nat)"
  frozen_rows :: nat

text \<open>\<^verbatim>\<open>Array.prototype.join\<close> and \<^verbatim>\<open>type.replace(/_/g, " ")\<close>.\<close>

fun join :: "string \<Rightarrow> string list \<Rightarrow> string" where
  "join sep [] = []"
| "join sep [x] = x"
| "join sep (x # y # ys) = x @ sep @ join sep (y # ys)"

definition replace_underscores :: "string \<Rightarrow> string" where
  "replace_underscores type = map (\<lambda>c. if c = CHR ''_'' then CHR '' '' else c) type"

definition businessType :: "string list \<Rightarrow> string" where
  "businessType tys =
     join '', ''
       (map replace_underscores
          (filter (\<lambda>type. type \<notin> set [''point_of_interest'', ''establishment'']) tys))"

definition addRow :: "PlaceSearchResult \<Rightarrow> sheet_row" where
  "addRow place =
     \<lparr> cell_name = CellText (name place),
       cell_address = (case formatted_address place of None \<Rightarrow> CellBlank | Some a \<Rightarrow> CellText a),
       cell_rating =
         (if truthy_number (rating place) then CellNumber (the (rating place)) else CellText ''N/A''),
       cell_ratings_count =
         (if truthy_number (user_ratings_total place) then CellNumber (the (user_ratings_total place))
          else CellNumber 0),
       cell_has_website =
         (if truthy_string (website place) then CellText ''Sim''
          else CellText (''N'' @ a_tilde @ ''o'')),
       cell_website = CellText (or_string (website place) ''N/A''),
       cell_phone = CellText (or_string (formatted_phone_number place) ''N/A''),
       cell_business_type = CellText (or_string (Some (businessType (types place))) ''N/A'') \<rparr>"

definition generateExcel :: "PlaceSearchResult list \<Rightarrow> worksheet" where
  "generateExcel places =
     \<lparr> sheet_name = ''Estabelecimentos'',
       columns =
         [ \<lparr>header = ''Nome'', key = ''name'', width = 30\<rparr>,
           \<lparr>header = ''Endere'' @ c_cedilla @ ''o'', key = ''address'', width = 40\<rparr>,
           \<lparr>header = ''Avalia'' @ c_cedilla @ a_tilde @ ''o'', key = ''rating'', width = 12\<rparr>,
           \<lparr>header = ''N'' @ u_acute @ ''mero de Avalia'' @ c_cedilla @ o_tilde @ ''es'',
              key = ''ratings_count'', width = 20\<rparr>,
           \<lparr>header = ''Possui Site'', key = ''has_website'', width = 12\<rparr>,
           \<lparr>header = ''Site'', key = ''website'', width = 40\<rparr>,
           \<lparr>header = ''Telefone'', key = ''phone'', width = 20\<rparr>,
           \<lparr>header = ''Tipo de Neg'' @ o_acute @ ''cio'', key = ''business_type'', width = 30\<rparr> ],
       header_bold = True,
       header_fill = ''FFE0E0E0'',
       rows = map addRow places,
       rating_numFmt = ''0.0'',
       autoFilter = ((1, 1), (1, 8)),
       frozen_rows = 1 \<rparr>"

section \<open>The request handler\<close>

text \<open>The process environment holds the credential. The request holds what
  \<^verbatim>\<open>request.json()\<close> does: it throws, or it yields the parsed body. The parsed body is
  \<^verbatim>\<open>null\<close>, or a value whose two fields are read by the destructuring: an object whose
  fields are strings when they are present (the declared body of the endpoint); a number, a
  string, a boolean or an array has neither field and is the object with both absent.\<close>

record environment =
  GOOGLE_MAPS_API_KEY :: "string option"

record body =
  serviceType :: "string option"
  location :: "string option"

datatype json_value = JsonNull | JsonObject body

record NextRequest =
  json :: "thrown + json_value"

datatype NextResponse =
  JsonResponse string nat
| FileResponse worksheet nat "(string \<times> string) list"

fun response_status :: "NextResponse \<Rightarrow> nat" where
  "response_status (JsonResponse m s) = s"
| "response_status (FileResponse b s h) = s"

text \<open>\<^verbatim>\<open>places.length.toString()\<close>.\<close>

definition digit_char :: "nat \<Rightarrow> char" where
  "digit_char d = char_of (48 + d)"

function toString :: "nat \<Rightarrow> string" where
  "toString n = (if n < 10 then [digit_char n] else toString (n div 10) @ [digit_char (n mod 10)])"
  by pat_completeness auto
termination
  by (relation "measure (\<lambda>n. n)") auto

declare toString.simps [simp del]

definition missing_key_message :: string where
  "missing_key_message = ''Chave da API do Google Maps n'' @ a_tilde @ ''o configurada''"

definition invalid_input_message :: string where
  "invalid_input_message =
     ''Tipo de servi'' @ c_cedilla @ ''o e localiza'' @ c_cedilla @ a_tilde @ ''o s'' @ a_tilde
       @ ''o obrigat'' @ o_acute @ ''rios''"

definition no_results_message :: string where
  "no_results_message =
     ''Nenhum estabelecimento encontrado para os crit'' @ e_acute @ ''rios informados''"

definition generic_message :: string where
  "generic_message =
     ''Ocorreu um erro ao processar a requisi'' @ c_cedilla @ a_tilde @ ''o''"

text \<open>Destructuring \<^verbatim>\<open>null\<close> throws a \<^verbatim>\<open>TypeError\<close>; its message is the engine's, here in
  the wording of Node.\<close>

definition cannot_destructure_message :: string where
  "cannot_destructure_message =
     ''Cannot destructure property '' @ [CHR 0x27] @ ''serviceType'' @ [CHR 0x27] @ '' of ''
       @ [CHR 0x27] @ ''body'' @ [CHR 0x27] @ '' as it is null.''"

text \<open>The \<^verbatim>\<open>catch\<close> clause of the handler.\<close>

definition catch_error :: "thrown \<Rightarrow> NextResponse" where
  "catch_error error =
     (let errorMessage = (case error of Error m \<Rightarrow> m | NonError \<Rightarrow> generic_message)
      in JsonResponse errorMessage 500)"

definition POST :: "environment \<Rightarrow> upstream \<Rightarrow> NextRequest \<Rightarrow> NextResponse \<times> trace" where
  "POST env up request =
     (let apiKey = GOOGLE_MAPS_API_KEY env
      in if \<not> truthy_string apiKey then (JsonResponse missing_key_message 500, [])
         else
           (case json request of
              Inl e \<Rightarrow> (catch_error e, [])
            | Inr JsonNull \<Rightarrow> (catch_error (Error cannot_destructure_message), [])
            | Inr (JsonObject b) \<Rightarrow>
                if \<not> truthy_string (serviceType b) \<or> \<not> truthy_string (location b)
                then (JsonResponse invalid_input_message 400, [])
                else
                  (case getAllPlaces up (the (serviceType b)) (the (location b)) (the apiKey) of
                     (Inl e, tr) \<Rightarrow> (catch_error e, tr)
                   | (Inr places, tr) \<Rightarrow>
                       if length places = 0
                       then (JsonResponse no_results_message 404, tr)
                       else
                         (FileResponse (generateExcel places) 200
                            [ (''Content-Type'',
                               ''application/vnd.openxmlformats-officedocument.spreadsheetml.sheet''),
                              (''Content-Disposition'', ''attachment; filename=estabelecimentos.xlsx''),
                              (''X-Results-Count'', toString (length places)) ],
                          tr))))"

section \<open>Reading a trace\<close>

text \<open>What a run did is read off its trace: the replies to the geocoding calls, the queries
  and the replies of the nearby searches, and the replies to the detail lookups, each in the
  order of issue.\<close>

fun geocode_reply_of :: "effect \<Rightarrow> (thrown + GeocodeResponse) list" where
  "geocode_reply_of (GeocodeGet l k r) = [r]"
| "geocode_reply_of e = []"

fun search_query_of :: "effect \<Rightarrow> query list" where
  "search_query_of (NearbySearchGet q k r) = [q]"
| "search_query_of e = []"

fun search_reply_of :: "effect \<Rightarrow> (thrown + PlacesSearchResponse) list" where
  "search_reply_of (NearbySearchGet q k r) = [r]"
| "search_reply_of e = []"

fun details_reply_of :: "effect \<Rightarrow> (thrown + PlaceDetailsResponse) list" where
  "details_reply_of (DetailsGet p k r) = [r]"
| "details_reply_of e = []"

definition geocode_replies :: "trace \<Rightarrow> (thrown + GeocodeResponse) list" where
  "geocode_replies tr = concat (map geocode_reply_of tr)"

definition search_queries :: "trace \<Rightarrow> query list" where
  "search_queries tr = concat (map search_query_of tr)"

definition search_replies :: "trace \<Rightarrow> (thrown + PlacesSearchResponse) list" where
  "search_replies tr = concat (map search_reply_of tr)"

definition details_replies :: "trace \<Rightarrow> (thrown + PlaceDetailsResponse) list" where
  "details_replies tr = concat (map details_reply_of tr)"

text \<open>The records of a page reply, and the records of all pages of a trace, page by page.\<close>

fun page_of :: "thrown + PlacesSearchResponse \<Rightarrow> search_item list" where
  "page_of (Inl e) = []"
| "page_of (Inr response) = results response"

definition fetched_records :: "trace \<Rightarrow> search_item list" where
  "fetched_records tr = concat (map page_of (search_replies tr))"

text \<open>A geocoding reply that \<^const>\<open>searchPlaces\<close> accepts, a page reply that the loop accepts,
  and a detail lookup that ends in the \<^verbatim>\<open>catch\<close> branch.\<close>

definition geocode_ok :: "thrown + GeocodeResponse \<Rightarrow> bool" where
  "geocode_ok r =
     (case r of Inl e \<Rightarrow> False | Inr g \<Rightarrow> geo_status g = ''OK'' \<and> geo_results g \<noteq> [])"

definition search_ok :: "thrown + PlacesSearchResponse \<Rightarrow> bool" where
  "search_ok r = (case r of Inl e \<Rightarrow> False | Inr p \<Rightarrow> status p = ''OK'')"

definition lookup_failed :: "thrown + PlaceDetailsResponse \<Rightarrow> bool" where
  "lookup_failed r = (case r of Inl e \<Rightarrow> True | Inr d \<Rightarrow> det_result d = None)"




section \<open>What an upstream offers\<close>

text \<open>A query asks for page \<open>j\<close> of a list of pages when it is the search by coordinates,
  radius 5000 and the keyword (for the first page), or the search by the token that the page
  before carries (for a later page).\<close>

fun asks_for :: "string \<Rightarrow> PlacesSearchResponse list \<Rightarrow> nat \<Rightarrow> query \<Rightarrow> bool" where
  "asks_for keyword pages 0 (ByLocation lat lng radius kw) = (radius = 5000 \<and> kw = keyword)"
| "asks_for keyword pages (Suc j) (ByToken t) = (next_page_token (pages ! j) = Some t)"
| "asks_for keyword pages j q = False"

text \<open>An upstream offers a list of pages for a keyword when, after \<open>j\<close> searches, it answers
  the query that asks for page \<open>j\<close> with that page. Its geocoding of a location is accepted
  when every call returns status \<^verbatim>\<open>OK\<close> and a candidate, and its detail lookups succeed when
  none throws or comes without \<^verbatim>\<open>result\<close>.\<close>

definition offers_pages :: "upstream \<Rightarrow> string \<Rightarrow> string \<Rightarrow> PlacesSearchResponse list \<Rightarrow> bool" where
  "offers_pages up keyword apiKey pages =
     (\<forall>h q. length (search_replies h) < length pages
              \<and> asks_for keyword pages (length (search_replies h)) q
            \<longrightarrow> nearbysearch_api up h q apiKey = Inr (pages ! length (search_replies h)))"

definition geocoding_accepted :: "upstream \<Rightarrow> string \<Rightarrow> string \<Rightarrow> bool" where
  "geocoding_accepted up loc apiKey = (\<forall>h. geocode_ok (geocode_api up h loc apiKey))"

definition lookups_succeed :: "upstream \<Rightarrow> string \<Rightarrow> bool" where
  "lookups_succeed up apiKey = (\<forall>h p. \<not> lookup_failed (details_api up h p apiKey))"

section \<open>Scripted upstreams\<close>

text \<open>An upstream that geocodes every location to the same point, answers the n-th nearby
  search with the n-th page of a script, and answers the detail lookups by a table.\<close>

definition ok_geocode :: GeocodeResponse where
  "ok_geocode = \<lparr>geo_status = ''OK'', geo_results = [(1, 2)]\<rparr>"

definition scripted_upstream ::
  "PlacesSearchResponse list \<Rightarrow> (string \<Rightarrow> thrown + PlaceDetailsResponse) \<Rightarrow> upstream" where
  "scripted_upstream pages table =
     \<lparr> geocode_api = (\<lambda>tr l k. Inr ok_geocode),
       nearbysearch_api =
         (\<lambda>tr q k. let n = length (search_replies tr)
                    in if n < length pages then Inr (pages ! n) else Inl (Error ''no such page'')),
       details_api = (\<lambda>tr p k. table p) \<rparr>"

text \<open>The same, with a geocoder that answers the first call only.\<close>

definition flaky_upstream ::
  "PlacesSearchResponse list \<Rightarrow> (string \<Rightarrow> thrown + PlaceDetailsResponse) \<Rightarrow> upstream" where
  "flaky_upstream pages table =
     (scripted_upstream pages table)
       \<lparr> geocode_api :=
           (\<lambda>tr l k. if geocode_replies tr = [] then Inr ok_geocode
                      else Inr \<lparr>geo_status = ''OVER_QUERY_LIMIT'', geo_results = []\<rparr>) \<rparr>"

definition sample_item :: "string \<Rightarrow> search_item" where
  "sample_item p =
     \<lparr> place_id = p, name = ''Cafe '' @ p, vicinity = ''Rua '' @ p, rating = None,
       user_ratings_total = None, types = [''cafe'', ''establishment''] \<rparr>"

definition sample_pages :: "PlacesSearchResponse list" where
  "sample_pages =
     [ \<lparr>results = [sample_item ''a'', sample_item ''b''], next_page_token = Some ''t1'',
         status = ''OK''\<rparr>,
       \<lparr>results = [sample_item ''c'', sample_item ''d''], next_page_token = None,
         status = ''OK''\<rparr> ]"

definition endless_pages :: "PlacesSearchResponse list" where
  "endless_pages = replicate 5 \<lparr>results = [], next_page_token = Some ''more'', status = ''OK''\<rparr>"

definition empty_page :: "PlacesSearchResponse list" where
  "empty_page = [\<lparr>results = [], next_page_token = None, status = ''OK''\<rparr>]"

definition sample_details :: "string \<Rightarrow> thrown + PlaceDetailsResponse" where
  "sample_details p =
     Inr \<lparr> det_result =
             Some \<lparr> det_website = Some (''https://'' @ p), det_formatted_phone_number = None,
                    det_formatted_address = Some (''Av. '' @ p) \<rparr>,
           det_status = ''OK'' \<rparr>"


text \<open>The traces of the runs used below.\<close>

definition sample_trace :: "(string \<Rightarrow> thrown + PlaceDetailsResponse) \<Rightarrow> trace" where
  "sample_trace table =
     [ GeocodeGet ''Lisboa'' ''k'' (Inr ok_geocode),
       NearbySearchGet (ByLocation 1 2 5000 ''cafe'') ''k'' (Inr (sample_pages ! 0)),
       DetailsGet ''a'' ''k'' (table ''a''),
       DetailsGet ''b'' ''k'' (table ''b''),
       Wait 2000,
       GeocodeGet ''Lisboa'' ''k'' (Inr ok_geocode),
       NearbySearchGet (ByToken ''t1'') ''k'' (Inr (sample_pages ! 1)),
       DetailsGet ''c'' ''k'' (table ''c''),
       DetailsGet ''d'' ''k'' (table ''d'') ]"

definition flaky_trace :: trace where
  "flaky_trace =
     take 5 (sample_trace sample_details)
       @ [GeocodeGet ''Lisboa'' ''k'' (Inr \<lparr>geo_status = ''OVER_QUERY_LIMIT'', geo_results = []\<rparr>)]"

definition endless_trace :: trace where
  "endless_trace =
     [ GeocodeGet ''Lisboa'' ''k'' (Inr ok_geocode),
       NearbySearchGet (ByLocation 1 2 5000 ''cafe'') ''k'' (Inr (endless_pages ! 0)),
       Wait 2000,
       GeocodeGet ''Lisboa'' ''k'' (Inr ok_geocode),
       NearbySearchGet (ByToken ''more'') ''k'' (Inr (endless_pages ! 1)),
       Wait 2000,
       GeocodeGet ''Lisboa'' ''k'' (Inr ok_geocode),
       NearbySearchGet (ByToken ''more'') ''k'' (Inr (endless_pages ! 2)) ]"

definition empty_trace :: trace where
  "empty_trace =
     [ GeocodeGet ''Lisboa'' ''k'' (Inr ok_geocode),
       NearbySearchGet (ByLocation 1 2 5000 ''cafe'') ''k'' (Inr (empty_page ! 0)) ]"

section \<open>Traces of the clients and of the loop\<close>

lemma replies_append [simp]:
  "geocode_replies (xs @ ys) = geocode_replies xs @ geocode_replies ys"
  "search_queries (xs @ ys) = search_queries xs @ search_queries ys"
  "search_replies (xs @ ys) = search_replies xs @ search_replies ys"
  "details_replies (xs @ ys) = details_replies xs @ details_replies ys"
  by (simp_all add: geocode_replies_def search_queries_def search_replies_def details_replies_def)

lemma replies_Nil [simp]:
  "geocode_replies [] = []" "search_queries [] = []" "search_replies [] = []"
  "details_replies [] = []"
  by (simp_all add: geocode_replies_def search_queries_def search_replies_def details_replies_def)

lemma replies_Cons [simp]:
  "geocode_replies (e # tr) = geocode_reply_of e @ geocode_replies tr"
  "search_queries (e # tr) = search_query_of e @ search_queries tr"
  "search_replies (e # tr) = search_reply_of e @ search_replies tr"
  "details_replies (e # tr) = details_reply_of e @ details_replies tr"
  by (simp_all add: geocode_replies_def search_queries_def search_replies_def details_replies_def)

lemma fetched_records_append [simp]:
  "fetched_records (xs @ ys) = fetched_records xs @ fetched_records ys"
  by (simp add: fetched_records_def)

lemma fetched_records_Nil [simp]: "fetched_records [] = []"
  by (simp add: fetched_records_def)

lemma length_search_queries: "length (search_queries tr) = length (search_replies tr)"
proof (induction tr)
  case Nil
  show ?case by simp
next
  case (Cons e tr)
  then show ?case by (cases e) simp_all
qed

text \<open>\<^const>\<open>searchPlaces\<close> geocodes first, whatever the page token; it searches only after
  a geocoding reply that it accepts.\<close>

lemma searchPlaces_trace:
  assumes "searchPlaces up st loc k tok tr = (r, tr')"
  shows "\<exists>g. (\<not> geocode_ok g \<and> (\<exists>e. r = Inl e) \<and> tr' = tr @ [GeocodeGet loc k g])
           \<or> (geocode_ok g \<and> (\<exists>q. tr' = tr @ [GeocodeGet loc k g, NearbySearchGet q k r]))"
  using assms
  by (auto simp: searchPlaces_def Let_def geocode_ok_def split: sum.splits if_splits prod.splits)

lemma detailedResults_trace:
  "detailedResults up k ps tr = (ds, tr') \<Longrightarrow>
     \<exists>new. tr' = tr @ new \<and> geocode_replies new = [] \<and> search_replies new = []
        \<and> length (details_replies new) = length ps
        \<and> ds = map2 merge_reply ps (details_replies new)"
proof (induction ps arbitrary: tr ds tr')
  case Nil
  then show ?case by simp
next
  case (Cons p ps)
  define r where "r = details_api up tr (place_id p) k"
  obtain ds' tr2 where rest: "detailedResults up k ps (tr @ [DetailsGet (place_id p) k r]) = (ds', tr2)"
    by (cases "detailedResults up k ps (tr @ [DetailsGet (place_id p) k r])")
  from Cons.prems rest have eq: "ds = merge_reply p r # ds'" "tr' = tr2"
    by (simp_all add: enrich_def getPlaceDetails_def Let_def r_def)
  from Cons.IH [OF rest] obtain new where n: "tr2 = (tr @ [DetailsGet (place_id p) k r]) @ new"
    "geocode_replies new = []" "search_replies new = []"
    "length (details_replies new) = length ps"
    "ds' = map2 merge_reply ps (details_replies new)" by blast
  show ?case
    by (rule exI [of _ "DetailsGet (place_id p) k r # new"]) (use eq n in simp)
qed

lemma fetch_page_Inl:
  assumes "fetch_page up st loc k tok tr = (Inl e, tr')"
  shows "\<exists>new. tr' = tr @ new \<and> length (geocode_replies new) = 1
           \<and> length (search_replies new) \<le> 1 \<and> details_replies new = []
           \<and> \<not> (list_all geocode_ok (geocode_replies new)
                 \<and> list_all search_ok (search_replies new))"
proof -
  define tr0 where "tr0 = (if truthy_string tok then tr @ [Wait 2000] else tr)"
  obtain r tr1 where s: "searchPlaces up st loc k tok tr0 = (r, tr1)"
    by (cases "searchPlaces up st loc k tok tr0")
  have "\<exists>pre. tr0 = tr @ pre \<and> geocode_replies pre = [] \<and> search_replies pre = []
             \<and> details_replies pre = []"
    by (simp add: tr0_def)
  then obtain pre where pre: "tr0 = tr @ pre" "geocode_replies pre = []"
    "search_replies pre = []" "details_replies pre = []" by blast
  from assms s have t: "tr' = tr1" and bad: "\<not> search_ok r"
    by (auto simp: fetch_page_def tr0_def [symmetric] search_ok_def
        split: sum.splits if_splits prod.splits)
  from searchPlaces_trace [OF s] obtain g where
    "(\<not> geocode_ok g \<and> tr1 = tr0 @ [GeocodeGet loc k g])
       \<or> (\<exists>q. tr1 = tr0 @ [GeocodeGet loc k g, NearbySearchGet q k r])" by blast
  then show ?thesis
  proof (elim disjE exE conjE)
    assume "\<not> geocode_ok g" "tr1 = tr0 @ [GeocodeGet loc k g]"
    then show ?thesis
      by (intro exI [of _ "pre @ [GeocodeGet loc k g]"]) (use t pre in simp)
  next
    fix q assume "tr1 = tr0 @ [GeocodeGet loc k g, NearbySearchGet q k r]"
    then show ?thesis
      by (intro exI [of _ "pre @ [GeocodeGet loc k g, NearbySearchGet q k r]"])
         (use t pre bad in simp)
  qed
qed

lemma fetch_page_Inr:
  assumes "fetch_page up st loc k tok tr = (Inr (ds, t), tr')"
  shows "\<exists>new g p. tr' = tr @ new \<and> geocode_replies new = [g] \<and> geocode_ok g
           \<and> search_replies new = [Inr p] \<and> status p = ''OK'' \<and> t = next_page_token p
           \<and> length (details_replies new) = length (results p)
           \<and> ds = map2 merge_reply (results p) (details_replies new)"
proof -
  define tr0 where "tr0 = (if truthy_string tok then tr @ [Wait 2000] else tr)"
  obtain r tr1 where s: "searchPlaces up st loc k tok tr0 = (r, tr1)"
    by (cases "searchPlaces up st loc k tok tr0")
  have "\<exists>pre. tr0 = tr @ pre \<and> geocode_replies pre = [] \<and> search_replies pre = []
             \<and> details_replies pre = []"
    by (simp add: tr0_def)
  then obtain pre where pre: "tr0 = tr @ pre" "geocode_replies pre = []"
    "search_replies pre = []" "details_replies pre = []" by blast
  from assms s obtain p where r: "r = Inr p" and ok: "status p = ''OK''"
    and t: "t = next_page_token p"
    and d: "detailedResults up k (results p) tr1 = (ds, tr')"
    by (auto simp: fetch_page_def tr0_def [symmetric]
        split: sum.splits if_splits prod.splits)
  from searchPlaces_trace [OF s] r obtain g q where g: "geocode_ok g"
    and t1: "tr1 = tr0 @ [GeocodeGet loc k g, NearbySearchGet q k (Inr p)]" by auto
  from detailedResults_trace [OF d] obtain new where n: "tr' = tr1 @ new"
    "geocode_replies new = []" "search_replies new = []"
    "length (details_replies new) = length (results p)"
    "ds = map2 merge_reply (results p) (details_replies new)" by blast
  show ?thesis
    by (intro exI [of _ "pre @ [GeocodeGet loc k g, NearbySearchGet q k (Inr p)] @ new"]
          exI [of _ g] exI [of _ p])
       (use g t1 n pre ok t in simp)
qed

text \<open>The three ways in which one round of the loop ends.\<close>

lemma loop_fail:
  "fetch_page up st loc k tok tr = (Inl e, tr1) \<Longrightarrow>
     getAllPlaces_loop up st loc k acc tok cp tr = (Inl e, tr1)"
  by (simp add: getAllPlaces_loop.simps)

lemma loop_more:
  "fetch_page up st loc k tok tr = (Inr (ds, t), tr1) \<Longrightarrow>
   truthy_string t \<and> cp + 1 < maxPages \<Longrightarrow>
     getAllPlaces_loop up st loc k acc tok cp tr =
     getAllPlaces_loop up st loc k (acc @ ds) t (cp + 1) tr1"
  by (subst getAllPlaces_loop.simps) simp

lemma loop_last:
  "fetch_page up st loc k tok tr = (Inr (ds, t), tr1) \<Longrightarrow>
   \<not> (truthy_string t \<and> cp + 1 < maxPages) \<Longrightarrow>
     getAllPlaces_loop up st loc k acc tok cp tr = (Inr (acc @ ds), tr1)"
  by (subst getAllPlaces_loop.simps) auto

lemma loop_counts:
  "getAllPlaces_loop up st loc k acc tok cp tr = (res, tr') \<Longrightarrow>
     \<exists>new. tr' = tr @ new
        \<and> length (search_replies new) \<le> length (geocode_replies new)
        \<and> length (geocode_replies new) \<le> Suc (length (search_replies new))
        \<and> 1 \<le> length (geocode_replies new)
        \<and> length (geocode_replies new) \<le> max 1 (maxPages - cp)"
proof (induction up st loc k acc tok cp tr arbitrary: res tr'
    rule: getAllPlaces_loop.induct)
  case (1 up st loc k acc tok cp tr)
  obtain r tr1 where f: "fetch_page up st loc k tok tr = (r, tr1)"
    by (cases "fetch_page up st loc k tok tr")
  show ?case
  proof (cases r)
    case (Inl e)
    with f "1.prems" have "tr' = tr1" by (simp add: loop_fail)
    with fetch_page_Inl [OF f [unfolded Inl]] show ?thesis
      by (auto simp: le_Suc_eq)
  next
    case (Inr dt)
    obtain ds t where dt: "dt = (ds, t)" by (cases dt)
    note f' = f [unfolded Inr dt]
    from fetch_page_Inr [OF f'] obtain new1 g p where
      n1: "tr1 = tr @ new1" "geocode_replies new1 = [g]" "search_replies new1 = [Inr p]"
      by blast
    show ?thesis
    proof (cases "truthy_string t \<and> cp + 1 < maxPages")
      case True
      with "1.prems" have
        "getAllPlaces_loop up st loc k (acc @ ds) t (cp + 1) tr1 = (res, tr')"
        by (simp add: loop_more [OF f'])
      from "1.IH" [OF f' [symmetric] refl refl True this] obtain new2 where
        n2: "tr' = tr1 @ new2"
        "length (search_replies new2) \<le> length (geocode_replies new2)"
        "length (geocode_replies new2) \<le> Suc (length (search_replies new2))"
        "length (geocode_replies new2) \<le> max 1 (maxPages - (cp + 1))"
        by blast
      show ?thesis
        by (rule exI [of _ "new1 @ new2"]) (use n1 n2 True in auto)
    next
      case False
      with "1.prems" have "tr' = tr1" by (simp add: loop_last [OF f'])
      then show ?thesis
        by (intro exI [of _ new1]) (use n1 in simp)
    qed
  qed
qed

lemma loop_Inr:
  "getAllPlaces_loop up st loc k acc tok cp tr = (Inr all, tr') \<Longrightarrow>
     \<exists>new. tr' = tr @ new
        \<and> list_all geocode_ok (geocode_replies new)
        \<and> list_all search_ok (search_replies new)
        \<and> length (geocode_replies new) = length (search_replies new)
        \<and> length (details_replies new) = length (fetched_records new)
        \<and> all = acc @ map2 merge_reply (fetched_records new) (details_replies new)"
proof (induction up st loc k acc tok cp tr arbitrary: all tr'
    rule: getAllPlaces_loop.induct)
  case (1 up st loc k acc tok cp tr)
  obtain r tr1 where f: "fetch_page up st loc k tok tr = (r, tr1)"
    by (cases "fetch_page up st loc k tok tr")
  show ?case
  proof (cases r)
    case (Inl e)
    with f "1.prems" show ?thesis by (simp add: loop_fail)
  next
    case (Inr dt)
    obtain ds t where dt: "dt = (ds, t)" by (cases dt)
    note f' = f [unfolded Inr dt]
    from fetch_page_Inr [OF f'] obtain new1 g p where
      n1: "tr1 = tr @ new1" "geocode_replies new1 = [g]" "geocode_ok g"
      "search_replies new1 = [Inr p]" "status p = ''OK''"
      "length (details_replies new1) = length (results p)"
      "ds = map2 merge_reply (results p) (details_replies new1)"
      by blast
    have rec1: "fetched_records new1 = results p"
      by (simp add: fetched_records_def n1)
    have ok1: "search_ok (Inr p)" by (simp add: search_ok_def n1)
    show ?thesis
    proof (cases "truthy_string t \<and> cp + 1 < maxPages")
      case True
      with "1.prems" have
        "getAllPlaces_loop up st loc k (acc @ ds) t (cp + 1) tr1 = (Inr all, tr')"
        by (simp add: loop_more [OF f'])
      from "1.IH" [OF f' [symmetric] refl refl True this] obtain new2 where
        n2: "tr' = tr1 @ new2"
        "list_all geocode_ok (geocode_replies new2)"
        "list_all search_ok (search_replies new2)"
        "length (geocode_replies new2) = length (search_replies new2)"
        "length (details_replies new2) = length (fetched_records new2)"
        "all = (acc @ ds) @ map2 merge_reply (fetched_records new2) (details_replies new2)"
        by blast
      show ?thesis
        by (rule exI [of _ "new1 @ new2"]) (use n1 n2 rec1 ok1 in simp)
    next
      case False
      with "1.prems" have "tr' = tr1" "all = acc @ ds" by (simp_all add: loop_last [OF f'])
      then show ?thesis
        by (intro exI [of _ new1]) (use n1 rec1 ok1 in simp)
    qed
  qed
qed


text \<open>The same facts for a whole aggregation, which starts from the empty trace.\<close>

lemma getAllPlaces_counts:
  assumes "getAllPlaces up st loc k = (res, tr)"
  shows "length (search_replies tr) \<le> length (geocode_replies tr)"
    and "length (geocode_replies tr) \<le> Suc (length (search_replies tr))"
    and "1 \<le> length (geocode_replies tr)"
    and "length (geocode_replies tr) \<le> 3"
  using loop_counts [OF assms [unfolded getAllPlaces_def]]
  by (auto simp: maxPages_def)

lemma getAllPlaces_Inr:
  assumes "getAllPlaces up st loc k = (Inr all, tr)"
  shows "list_all geocode_ok (geocode_replies tr)"
    and "list_all search_ok (search_replies tr)"
    and "length (geocode_replies tr) = length (search_replies tr)"
    and "length (details_replies tr) = length (fetched_records tr)"
    and "all = map2 merge_reply (fetched_records tr) (details_replies tr)"
  using loop_Inr [OF assms [unfolded getAllPlaces_def]]
  by auto


section \<open>Enriched records\<close>

lemma truncate_merge_reply [simp]: "search_item.truncate (merge_reply p d) = p"
  by (simp add: merge_reply_def with_defaults_def with_details_def search_item.defs
      PlaceSearchResult.defs split: sum.splits option.splits)


lemma with_defaults_fields [simp]:
  "website (with_defaults p) = Some []"
  "formatted_phone_number (with_defaults p) = Some []"
  "formatted_address (with_defaults p) = Some (vicinity p)"
  "search_item.truncate (with_defaults p) = p"
  by (simp_all add: with_defaults_def search_item.defs PlaceSearchResult.defs)

lemma truncate_map2_merge_reply:
  "length ps = length ds \<Longrightarrow> map search_item.truncate (map2 merge_reply ps ds) = ps"
  by (induction ps ds rule: list_induct2) simp_all

lemma rows_generateExcel [simp]: "rows (generateExcel places) = map addRow places"
  by (simp add: generateExcel_def)


section \<open>The runs of the scripted upstreams\<close>

lemmas run_defs =
  fetch_page_def searchPlaces_def enrich_def getPlaceDetails_def nearbysearch_query_def
  truthy_string_def Let_def scripted_upstream_def ok_geocode_def





lemma flaky_page1:
  "fetch_page (flaky_upstream sample_pages sample_details) ''cafe'' ''Lisboa'' ''k'' None [] =
     (Inr ([merge_reply (sample_item ''a'') (sample_details ''a''),
            merge_reply (sample_item ''b'') (sample_details ''b'')], Some ''t1''),
      take 4 (sample_trace sample_details))"
  by (simp add: run_defs flaky_upstream_def sample_pages_def sample_trace_def sample_item_def)

lemma flaky_page2:
  "fetch_page (flaky_upstream sample_pages sample_details) ''cafe'' ''Lisboa'' ''k'' (Some ''t1'')
     (take 4 (sample_trace sample_details)) =
     (Inl (Error location_not_found), flaky_trace)"
  by (simp add: run_defs flaky_upstream_def sample_pages_def sample_trace_def flaky_trace_def)

lemma flaky_run:
  "getAllPlaces (flaky_upstream sample_pages sample_details) ''cafe'' ''Lisboa'' ''k'' =
     (Inl (Error location_not_found), flaky_trace)"
  by (simp add: getAllPlaces_def loop_more [OF flaky_page1] loop_fail [OF flaky_page2]
      truthy_string_def maxPages_def)

lemma endless_page1:
  "fetch_page (scripted_upstream endless_pages table) ''cafe'' ''Lisboa'' ''k'' None [] =
     (Inr ([], Some ''more''), take 2 endless_trace)"
  by (simp add: run_defs endless_pages_def endless_trace_def)

lemma endless_page2:
  "fetch_page (scripted_upstream endless_pages table) ''cafe'' ''Lisboa'' ''k'' (Some ''more'')
     (take 2 endless_trace) =
     (Inr ([], Some ''more''), take 5 endless_trace)"
  by (simp add: run_defs endless_pages_def endless_trace_def)

lemma endless_page3:
  "fetch_page (scripted_upstream endless_pages table) ''cafe'' ''Lisboa'' ''k'' (Some ''more'')
     (take 5 endless_trace) =
     (Inr ([], Some ''more''), endless_trace)"
  by (simp add: run_defs endless_pages_def endless_trace_def)

lemma endless_run:
  "getAllPlaces (scripted_upstream endless_pages table) ''cafe'' ''Lisboa'' ''k'' =
     (Inr [], endless_trace)"
proof -
  let ?loop = "getAllPlaces_loop (scripted_upstream endless_pages table) ''cafe'' ''Lisboa'' ''k''"
  have "?loop [] None 0 [] = ?loop ([] @ []) (Some ''more'') (0 + 1) (take 2 endless_trace)"
    by (rule loop_more [OF endless_page1]) (simp add: truthy_string_def maxPages_def)
  also have "\<dots> = ?loop (([] @ []) @ []) (Some ''more'') (0 + 1 + 1) (take 5 endless_trace)"
    by (rule loop_more [OF endless_page2]) (simp add: truthy_string_def maxPages_def)
  also have "\<dots> = (Inr ((([] @ []) @ []) @ []), endless_trace)"
    by (rule loop_last [OF endless_page3]) (simp add: maxPages_def)
  finally show ?thesis by (simp add: getAllPlaces_def)
qed

lemma empty_page1:
  "fetch_page (scripted_upstream empty_page table) ''cafe'' ''Lisboa'' ''k'' None [] =
     (Inr ([], None), empty_trace)"
  by (simp add: run_defs empty_page_def empty_trace_def)

lemma empty_run:
  "getAllPlaces (scripted_upstream empty_page table) ''cafe'' ''Lisboa'' ''k'' =
     (Inr [], empty_trace)"
  by (simp add: getAllPlaces_def loop_last [OF empty_page1] truthy_string_def)

section \<open>Fetching what an upstream offers\<close>

lemma asks_for_query:
  assumes "(cp = 0 \<and> \<not> truthy_string tok)
         \<or> (0 < cp \<and> truthy_string tok \<and> tok = next_page_token (pages ! (cp - 1)))"
  shows "asks_for st pages cp (nearbysearch_query lat lng st tok)"
proof (cases cp)
  case 0
  with assms show ?thesis
    by (auto simp: nearbysearch_query_def truthy_string_def split: option.splits)
next
  case (Suc j)
  with assms show ?thesis
    by (auto simp: nearbysearch_query_def truthy_string_def split: option.splits)
qed

lemma searchPlaces_offer:
  assumes offer: "offers_pages up st k pages"
    and geo: "geocoding_accepted up loc k"
    and cp: "length (search_replies tr) = cp" "cp < length pages"
    and tok: "(cp = 0 \<and> \<not> truthy_string tok)
         \<or> (0 < cp \<and> truthy_string tok \<and> tok = next_page_token (pages ! (cp - 1)))"
  shows "\<exists>g q. searchPlaces up st loc k tok tr =
           (Inr (pages ! cp), tr @ [GeocodeGet loc k g, NearbySearchGet q k (Inr (pages ! cp))])"
proof -
  define g where "g = geocode_api up tr loc k"
  from geo have "geocode_ok g" by (simp add: geocoding_accepted_def g_def)
  then obtain d where d: "g = Inr d" "geo_status d = ''OK''" "geo_results d \<noteq> []"
    by (auto simp: geocode_ok_def split: sum.splits)
  define q where "q = nearbysearch_query (fst (hd (geo_results d))) (snd (hd (geo_results d))) st tok"
  have "asks_for st pages cp q"
    unfolding q_def by (rule asks_for_query [OF tok])
  with offer cp have "nearbysearch_api up (tr @ [GeocodeGet loc k g]) q k = Inr (pages ! cp)"
    by (simp add: offers_pages_def)
  then have "searchPlaces up st loc k tok tr =
           (Inr (pages ! cp), tr @ [GeocodeGet loc k g, NearbySearchGet q k (Inr (pages ! cp))])"
    using d by (simp add: searchPlaces_def g_def [symmetric] q_def [symmetric] Let_def
        case_prod_beta)
  then show ?thesis by blast
qed

lemma fetch_page_offer:
  assumes offer: "offers_pages up st k pages"
    and geo: "geocoding_accepted up loc k"
    and cp: "length (search_replies tr) = cp" "cp < length pages"
    and tok: "(cp = 0 \<and> \<not> truthy_string tok)
         \<or> (0 < cp \<and> truthy_string tok \<and> tok = next_page_token (pages ! (cp - 1)))"
    and ok: "status (pages ! cp) = ''OK''"
  shows "\<exists>ds new. fetch_page up st loc k tok tr
             = (Inr (ds, next_page_token (pages ! cp)), tr @ new)
           \<and> search_replies new = [Inr (pages ! cp)]"
proof -
  define tr0 where "tr0 = (if truthy_string tok then tr @ [Wait 2000] else tr)"
  have "\<exists>pre. tr0 = tr @ pre \<and> search_replies pre = []"
    by (simp add: tr0_def)
  then obtain pre where pre: "tr0 = tr @ pre" "search_replies pre = []" by blast
  with cp have "length (search_replies tr0) = cp" by simp
  from searchPlaces_offer [OF offer geo this cp(2) tok] obtain g q where
    s: "searchPlaces up st loc k tok tr0 =
           (Inr (pages ! cp), tr0 @ [GeocodeGet loc k g, NearbySearchGet q k (Inr (pages ! cp))])"
    by blast
  define tr1 where "tr1 = tr0 @ [GeocodeGet loc k g, NearbySearchGet q k (Inr (pages ! cp))]"
  obtain ds tr2 where d: "detailedResults up k (results (pages ! cp)) tr1 = (ds, tr2)"
    by (cases "detailedResults up k (results (pages ! cp)) tr1")
  from detailedResults_trace [OF d] obtain dets where
    dets: "tr2 = tr1 @ dets" "search_replies dets = []" by blast
  have "fetch_page up st loc k tok tr = (Inr (ds, next_page_token (pages ! cp)), tr2)"
    using s d ok by (simp add: fetch_page_def tr0_def [symmetric] tr1_def [symmetric])
  moreover have "tr2 = tr @ (pre @ [GeocodeGet loc k g, NearbySearchGet q k (Inr (pages ! cp))] @ dets)"
    by (simp add: dets tr1_def pre)
  moreover have "search_replies (pre @ [GeocodeGet loc k g, NearbySearchGet q k (Inr (pages ! cp))] @ dets)
      = [Inr (pages ! cp)]"
    by (simp add: dets pre)
  ultimately show ?thesis by metis
qed

lemma loop_offer:
  assumes offer: "offers_pages up st k pages"
    and geo: "geocoding_accepted up loc k"
    and bound: "length pages \<le> maxPages"
    and ok: "\<forall>j < length pages. status (pages ! j) = ''OK''"
    and chain: "\<forall>j. j + 1 < length pages \<longrightarrow> truthy_string (next_page_token (pages ! j))"
    and stop: "\<not> truthy_string (next_page_token (pages ! (length pages - 1)))
                 \<or> length pages = maxPages"
  shows "length (search_replies tr) = cp \<Longrightarrow> cp < length pages \<Longrightarrow>
         (cp = 0 \<and> \<not> truthy_string tok)
           \<or> (0 < cp \<and> truthy_string tok \<and> tok = next_page_token (pages ! (cp - 1))) \<Longrightarrow>
         \<exists>all new. getAllPlaces_loop up st loc k acc tok cp tr = (Inr all, tr @ new)
            \<and> search_replies new = map Inr (drop cp pages)"
proof (induction "length pages - cp" arbitrary: cp tok tr acc)
  case 0
  then show ?case by simp
next
  case (Suc n)
  from Suc.prems(2) ok have okcp: "status (pages ! cp) = ''OK''" by simp
  from fetch_page_offer [OF offer geo Suc.prems(1) Suc.prems(2) Suc.prems(3) okcp]
  obtain ds new1 where
    f: "fetch_page up st loc k tok tr = (Inr (ds, next_page_token (pages ! cp)), tr @ new1)"
    and s1: "search_replies new1 = [Inr (pages ! cp)]" by blast
  let ?t = "next_page_token (pages ! cp)"
  have dropcp: "drop cp pages = pages ! cp # drop (Suc cp) pages"
    using Suc.prems(2) by (simp add: Cons_nth_drop_Suc)
  show ?case
  proof (cases "cp + 1 < length pages")
    case True
    with chain have t: "truthy_string ?t" by simp
    from True bound have more: "truthy_string ?t \<and> cp + 1 < maxPages" using t by simp
    have n: "n = length pages - (cp + 1)" using Suc.hyps(2) by simp
    have len: "length (search_replies (tr @ new1)) = cp + 1"
      using Suc.prems(1) s1 by simp
    have inv: "(cp + 1 = 0 \<and> \<not> truthy_string ?t)
         \<or> (0 < cp + 1 \<and> truthy_string ?t \<and> ?t = next_page_token (pages ! (cp + 1 - 1)))"
      using t by simp
    from Suc.hyps(1) [OF n len True inv, of "acc @ ds"] obtain all new2 where
      r: "getAllPlaces_loop up st loc k (acc @ ds) ?t (cp + 1) (tr @ new1)
            = (Inr all, (tr @ new1) @ new2)"
      and s2: "search_replies new2 = map Inr (drop (cp + 1) pages)" by blast
    have "getAllPlaces_loop up st loc k acc tok cp tr = (Inr all, tr @ (new1 @ new2))"
      using loop_more [OF f more, of acc] r by simp
    moreover have "search_replies (new1 @ new2) = map Inr (drop cp pages)"
      using s1 s2 dropcp by simp
    ultimately show ?thesis by blast
  next
    case False
    with Suc.prems(2) have last: "cp = length pages - 1" by simp
    have "\<not> (truthy_string ?t \<and> cp + 1 < maxPages)"
      using stop last Suc.prems(2) by auto
    from loop_last [OF f this, of acc]
    have "getAllPlaces_loop up st loc k acc tok cp tr = (Inr (acc @ ds), tr @ new1)" .
    moreover have "search_replies new1 = map Inr (drop cp pages)"
      using s1 dropcp False by simp
    ultimately show ?thesis by blast
  qed
qed

lemma length_concat_results:
  "list_all (\<lambda>p. status p = ''OK'' \<and> length (results p) = K) pages \<Longrightarrow>
     length (concat (map results pages)) = length pages * K"
  by (induction pages) simp_all

lemma page_of_Inr: "map page_of (map Inr pages) = map results pages"
  by (induction pages) simp_all

lemma searchPlaces_details:
  "searchPlaces up st loc k tok tr = (r, tr') \<Longrightarrow> details_replies tr' = details_replies tr"
  using searchPlaces_trace [of up st loc k tok tr r tr'] by auto

lemma detailedResults_succeed:
  "lookups_succeed up k \<Longrightarrow> detailedResults up k ps tr = (ds, tr') \<Longrightarrow>
   list_all (\<lambda>d. \<not> lookup_failed d) (details_replies tr) \<Longrightarrow>
     list_all (\<lambda>d. \<not> lookup_failed d) (details_replies tr')"
proof (induction ps arbitrary: tr ds tr')
  case Nil
  then show ?case by simp
next
  case (Cons p ps)
  define r where "r = details_api up tr (place_id p) k"
  obtain ds' tr2 where rest: "detailedResults up k ps (tr @ [DetailsGet (place_id p) k r]) = (ds', tr2)"
    by (cases "detailedResults up k ps (tr @ [DetailsGet (place_id p) k r])")
  from Cons.prems(2) rest have eq: "tr' = tr2"
    by (simp add: enrich_def getPlaceDetails_def Let_def r_def)
  from Cons.prems(1) have "\<not> lookup_failed r" by (simp add: lookups_succeed_def r_def)
  with Cons.prems(3)
  have "list_all (\<lambda>d. \<not> lookup_failed d) (details_replies (tr @ [DetailsGet (place_id p) k r]))"
    by simp
  from Cons.IH [OF Cons.prems(1) rest this] eq show ?case by simp
qed

lemma fetch_page_succeed:
  assumes "lookups_succeed up k" and f: "fetch_page up st loc k tok tr = (r, tr')"
    and inv: "list_all (\<lambda>d. \<not> lookup_failed d) (details_replies tr)"
  shows "list_all (\<lambda>d. \<not> lookup_failed d) (details_replies tr')"
proof -
  define tr0 where "tr0 = (if truthy_string tok then tr @ [Wait 2000] else tr)"
  obtain s tr1 where s: "searchPlaces up st loc k tok tr0 = (s, tr1)"
    by (cases "searchPlaces up st loc k tok tr0")
  have "details_replies tr0 = details_replies tr" by (simp add: tr0_def)
  with searchPlaces_details [OF s] inv
  have inv1: "list_all (\<lambda>d. \<not> lookup_failed d) (details_replies tr1)" by simp
  show ?thesis
  proof (cases "\<exists>p. s = Inr p \<and> status p = ''OK''")
    case True
    then obtain p where p: "s = Inr p" "status p = ''OK''" by blast
    obtain ds tr2 where d: "detailedResults up k (results p) tr1 = (ds, tr2)"
      by (cases "detailedResults up k (results p) tr1")
    from f s p d have "tr' = tr2" by (simp add: fetch_page_def tr0_def [symmetric])
    with detailedResults_succeed [OF assms(1) d inv1] show ?thesis by simp
  next
    case False
    with f s have "tr' = tr1"
      by (auto simp: fetch_page_def tr0_def [symmetric] split: sum.splits if_splits)
    with inv1 show ?thesis by simp
  qed
qed

lemma loop_succeed:
  "lookups_succeed up k \<Longrightarrow>
   getAllPlaces_loop up st loc k acc tok cp tr = (res, tr') \<Longrightarrow>
   list_all (\<lambda>d. \<not> lookup_failed d) (details_replies tr) \<Longrightarrow>
     list_all (\<lambda>d. \<not> lookup_failed d) (details_replies tr')"
proof (induction up st loc k acc tok cp tr arbitrary: res tr'
    rule: getAllPlaces_loop.induct)
  case (1 up st loc k acc tok cp tr)
  obtain r tr1 where f: "fetch_page up st loc k tok tr = (r, tr1)"
    by (cases "fetch_page up st loc k tok tr")
  note inv1 = fetch_page_succeed [OF "1.prems"(1) f "1.prems"(3)]
  show ?case
  proof (cases r)
    case (Inl e)
    with f "1.prems"(2) have "tr' = tr1" by (simp add: loop_fail)
    with inv1 show ?thesis by simp
  next
    case (Inr dt)
    obtain ds t where dt: "dt = (ds, t)" by (cases dt)
    note f' = f [unfolded Inr dt]
    show ?thesis
    proof (cases "truthy_string t \<and> cp + 1 < maxPages")
      case True
      with "1.prems"(2) have
        "getAllPlaces_loop up st loc k (acc @ ds) t (cp + 1) tr1 = (res, tr')"
        by (simp add: loop_more [OF f'])
      from "1.IH" [OF f' [symmetric] refl refl True "1.prems"(1) this inv1]
      show ?thesis .
    next
      case False
      with "1.prems"(2) have "tr' = tr1" by (simp add: loop_last [OF f'])
      with inv1 show ?thesis by simp
    qed
  qed
qed

section \<open>The aggregated collection\<close>

text \<open>
  Claim C1, as stated, fails: the location is geocoded again for every page fetch, and the
  claim does not ask that these geocodings succeed. The upstream below offers two pages of
  two records with status \<^verbatim>\<open>OK\<close>, the first with a token and the second without, answers
  every detail lookup and accepts the first geocoding; it refuses the second geocoding, and the
  aggregation throws after the first page instead of returning four entries.
\<close>

theorem refused_geocoding_counterexample:
  "offers_pages (flaky_upstream sample_pages sample_details) ''cafe'' ''k'' sample_pages
   \<and> lookups_succeed (flaky_upstream sample_pages sample_details) ''k''
   \<and> length sample_pages = 2
   \<and> status (sample_pages ! 0) = ''OK'' \<and> length (results (sample_pages ! 0)) = 2
   \<and> status (sample_pages ! 1) = ''OK'' \<and> length (results (sample_pages ! 1)) = 2
   \<and> truthy_string (next_page_token (sample_pages ! 0))
   \<and> \<not> truthy_string (next_page_token (sample_pages ! 1))
   \<and> geocode_ok (geocode_api (flaky_upstream sample_pages sample_details) [] ''Lisboa'' ''k'')
   \<and> getAllPlaces (flaky_upstream sample_pages sample_details) ''cafe'' ''Lisboa'' ''k''
       = (Inl (Error location_not_found), flaky_trace)"
proof -
  have "offers_pages (flaky_upstream sample_pages sample_details) ''cafe'' ''k'' sample_pages"
    by (simp add: offers_pages_def flaky_upstream_def scripted_upstream_def)
  moreover have "lookups_succeed (flaky_upstream sample_pages sample_details) ''k''"
    by (simp add: lookups_succeed_def flaky_upstream_def scripted_upstream_def
        lookup_failed_def sample_details_def)
  moreover have "geocode_ok (geocode_api (flaky_upstream sample_pages sample_details) []
      ''Lisboa'' ''k'')"
    by (simp add: flaky_upstream_def scripted_upstream_def geocode_ok_def ok_geocode_def)
  ultimately show ?thesis
    by (simp add: flaky_run) (simp add: sample_pages_def truthy_string_def)
qed

text \<open>
  Claim C1, amended. Let the upstream offer \<open>N\<close> pages, \<open>1 \<le> N \<le> 3\<close>, each with status
  \<^verbatim>\<open>OK\<close> and \<open>K\<close> records, every page but the last with a next-page token and the last one
  without (or \<open>N = 3\<close>); let every detail lookup succeed, and let every geocoding of the
  location be accepted, the one before each page fetch included. Then \<^const>\<open>getAllPlaces\<close>
  fetches exactly these pages and returns a collection of exactly \<open>N * K\<close> entries: the
  records of the pages, page by page and in the order of each page, each merged with the
  reply to its own detail lookup. The sheet of \<^const>\<open>generateExcel\<close> has one data row for
  each entry, in the same order.
\<close>

theorem offered_pages_are_fetched:
  assumes offer: "offers_pages up st k pages"
    and n: "length pages = N" "1 \<le> N" "N \<le> 3"
    and pages: "list_all (\<lambda>p. status p = ''OK'' \<and> length (results p) = K) pages"
    and chain: "\<forall>j. j + 1 < N \<longrightarrow> truthy_string (next_page_token (pages ! j))"
    and stop: "\<not> truthy_string (next_page_token (pages ! (N - 1))) \<or> N = 3"
    and det: "lookups_succeed up k"
    and geo: "geocoding_accepted up loc k"
  shows "\<exists>all tr. getAllPlaces up st loc k = (Inr all, tr)
       \<and> search_replies tr = map Inr pages
       \<and> length all = N * K
       \<and> map search_item.truncate all = concat (map results pages)
       \<and> all = map2 merge_reply (concat (map results pages)) (details_replies tr)
       \<and> list_all (\<lambda>d. \<not> lookup_failed d) (details_replies tr)
       \<and> length (rows (generateExcel all)) = N * K
       \<and> map cell_name (rows (generateExcel all))
           = map (\<lambda>p. CellText (name p)) (concat (map results pages))"
proof -
  have ok: "\<forall>j < length pages. status (pages ! j) = ''OK''"
    using pages by (simp add: list_all_length)
  have "\<exists>all new. getAllPlaces_loop up st loc k [] None 0 [] = (Inr all, [] @ new)
            \<and> search_replies new = map Inr (drop 0 pages)"
    by (rule loop_offer [OF offer geo _ ok])
       (use n chain stop in \<open>simp_all add: maxPages_def truthy_string_def\<close>)
  then obtain all tr where run: "getAllPlaces up st loc k = (Inr all, tr)"
    and replies: "search_replies tr = map Inr pages"
    by (auto simp: getAllPlaces_def)
  note facts = getAllPlaces_Inr [OF run]
  have recs: "fetched_records tr = concat (map results pages)"
    unfolding fetched_records_def replies by (simp only: page_of_Inr)
  have all: "all = map2 merge_reply (concat (map results pages)) (details_replies tr)"
    using facts(5) recs by simp
  have eqlen: "length (concat (map results pages)) = length (details_replies tr)"
    using facts(4) recs by simp
  have count: "length all = N * K"
    using all eqlen length_concat_results [OF pages] n(1) by simp
  have order: "map search_item.truncate all = concat (map results pages)"
    using all truncate_map2_merge_reply [OF eqlen] by simp
  have lookups: "list_all (\<lambda>d. \<not> lookup_failed d) (details_replies tr)"
    using loop_succeed [OF det run [unfolded getAllPlaces_def]] by simp
  have rowcount: "length (rows (generateExcel all)) = N * K"
    using count by simp
  have names: "map cell_name (rows (generateExcel all))
           = map (\<lambda>p. CellText (name p)) (concat (map results pages))"
  proof -
    have "map cell_name (rows (generateExcel all)) = map (\<lambda>p. CellText (name p)) all"
      by (simp add: addRow_def)
    also have "\<dots> = map (\<lambda>p. CellText (name p)) (map search_item.truncate all)"
      by (simp add: search_item.defs)
    finally show ?thesis by (simp only: order)
  qed
  show ?thesis
    by (intro exI [of _ all] exI [of _ tr] conjI run replies count order all lookups rowcount
        names)
qed

text \<open>The scripted upstream with two pages of two records.\<close>

theorem offered_pages_are_fetched_witness:
  "\<exists>all tr. getAllPlaces (scripted_upstream sample_pages sample_details)
                 ''cafe'' ''Lisboa'' ''k'' = (Inr all, tr)
     \<and> search_replies tr = map Inr sample_pages
     \<and> length all = 2 * 2
     \<and> map search_item.truncate all = concat (map results sample_pages)"
proof -
  let ?up = "scripted_upstream sample_pages sample_details"
  have offer: "offers_pages ?up ''cafe'' ''k'' sample_pages"
    by (simp add: offers_pages_def scripted_upstream_def)
  have n: "length sample_pages = 2" "1 \<le> (2::nat)" "(2::nat) \<le> 3"
    by (simp_all add: sample_pages_def)
  have pages: "list_all (\<lambda>p. status p = ''OK'' \<and> length (results p) = 2) sample_pages"
    by (simp add: sample_pages_def)
  have chain: "\<forall>j. j + 1 < 2 \<longrightarrow> truthy_string (next_page_token (sample_pages ! j))"
    by (simp add: sample_pages_def truthy_string_def)
  have stop: "\<not> truthy_string (next_page_token (sample_pages ! (2 - 1))) \<or> (2::nat) = 3"
    by (simp add: sample_pages_def truthy_string_def)
  have det: "lookups_succeed ?up ''k''"
    by (simp add: lookups_succeed_def scripted_upstream_def lookup_failed_def sample_details_def)
  have geo: "geocoding_accepted ?up ''Lisboa'' ''k''"
    by (simp add: geocoding_accepted_def scripted_upstream_def geocode_ok_def ok_geocode_def)
  from offered_pages_are_fetched [OF offer n pages chain stop det geo]
  show ?thesis
    by (elim exE conjE, intro exI conjI) assumption+
qed

subsection \<open>The page bound\<close>

text \<open>
  Claim C3. Whatever the upstream answers, a run of \<^const>\<open>getAllPlaces\<close> issues at most three
  nearby-search requests; a third page that carries a next-page token is the last one
  fetched.
\<close>

theorem no_fourth_page_request:
  "length (search_queries (snd (getAllPlaces up st loc k))) \<le> 3"
proof -
  obtain res tr where run: "getAllPlaces up st loc k = (res, tr)"
    by (cases "getAllPlaces up st loc k")
  from getAllPlaces_counts(1,4) [OF run] show ?thesis
    by (simp add: run length_search_queries)
qed

text \<open>The run of an upstream whose every page carries a token: three requests, no fourth.\<close>

theorem no_fourth_page_request_witness:
  "next_page_token (endless_pages ! 2) = Some ''more''
   \<and> length (search_queries (snd (getAllPlaces (scripted_upstream endless_pages sample_details)
        ''cafe'' ''Lisboa'' ''k''))) = 3
   \<and> length (search_queries (snd (getAllPlaces (scripted_upstream endless_pages sample_details)
        ''cafe'' ''Lisboa'' ''k''))) \<le> 3"
proof -
  have "snd (getAllPlaces (scripted_upstream endless_pages sample_details)
          ''cafe'' ''Lisboa'' ''k'') = endless_trace"
    by (simp only: endless_run snd_conv)
  moreover have "length (search_queries endless_trace) = 3"
    by (simp add: endless_trace_def)
  moreover have "next_page_token (endless_pages ! 2) = Some ''more''"
    by (simp add: endless_pages_def)
  ultimately show ?thesis
    using no_fourth_page_request [of "scripted_upstream endless_pages sample_details"
      "''cafe''" "''Lisboa''" "''k''"]
    by simp
qed

subsection \<open>A failed detail lookup\<close>



section \<open>The queries of a run\<close>







section \<open>Geocoding and the page requests\<close>




section \<open>The responses of the handler\<close>

lemma response_status_catch_error [simp]: "response_status (catch_error e) = 500"
  by (simp add: catch_error_def)

text \<open>
  Claim C5, as stated, fails. The credential is checked before the body is read, so a request
  with an empty service type is answered with status 500 when the credential is absent. And
  a body that parses to \<^verbatim>\<open>null\<close> has neither field, but the destructuring throws on it and
  the answer is the status 500 of the \<^verbatim>\<open>catch\<close> clause.
\<close>

theorem invalid_input_counterexample:
  "POST \<lparr>GOOGLE_MAPS_API_KEY = None\<rparr> (scripted_upstream sample_pages sample_details)
     \<lparr>json = Inr (JsonObject \<lparr>serviceType = Some [], location = Some ''Lisboa''\<rparr>)\<rparr>
     = (JsonResponse missing_key_message 500, [])
   \<and> POST \<lparr>GOOGLE_MAPS_API_KEY = Some ''k''\<rparr> (scripted_upstream sample_pages sample_details)
     \<lparr>json = Inr JsonNull\<rparr>
     = (JsonResponse cannot_destructure_message 500, [])"
  by (simp add: POST_def truthy_string_def catch_error_def)

text \<open>
  Claim C5, amended. When the credential is configured and the body parses to a value other
  than \<^verbatim>\<open>null\<close>, a request whose service type or location is empty or missing is answered
  with the invalid-input message and status 400, and no outbound call is made.
\<close>

theorem invalid_input_before_any_call:
  assumes "truthy_string (GOOGLE_MAPS_API_KEY env)"
    and "json request = Inr (JsonObject b)"
    and "\<not> truthy_string (serviceType b) \<or> \<not> truthy_string (location b)"
  shows "POST env up request = (JsonResponse invalid_input_message 400, [])"
  using assms by (auto simp: POST_def)

theorem invalid_input_before_any_call_witness:
  "POST \<lparr>GOOGLE_MAPS_API_KEY = Some ''k''\<rparr> (scripted_upstream sample_pages sample_details)
     \<lparr>json = Inr (JsonObject \<lparr>serviceType = Some ''cafe'', location = None\<rparr>)\<rparr>
     = (JsonResponse invalid_input_message 400, [])"
  by (rule invalid_input_before_any_call [where b = "\<lparr>serviceType = Some ''cafe'', location = None\<rparr>"])
     (simp_all add: truthy_string_def)

text \<open>
  Claim C6. When the credential is absent from the environment (or empty), every request is
  answered with the missing-credential message and status 500, and no outbound call is made.
\<close>

theorem missing_credential_before_any_call:
  assumes "\<not> truthy_string (GOOGLE_MAPS_API_KEY env)"
  shows "POST env up request = (JsonResponse missing_key_message 500, [])"
  using assms by (simp add: POST_def)

theorem missing_credential_before_any_call_witness:
  "POST \<lparr>GOOGLE_MAPS_API_KEY = None\<rparr> (scripted_upstream sample_pages sample_details)
     \<lparr>json = Inr (JsonObject \<lparr>serviceType = Some ''cafe'', location = Some ''Lisboa''\<rparr>)\<rparr>
     = (JsonResponse missing_key_message 500, [])"
  by (rule missing_credential_before_any_call) (simp add: truthy_string_def)

text \<open>
  Claim C7. When the credential is configured and both fields of the body are non-empty, the
  response follows the outcome of the aggregation: an empty collection gives the no-results
  message with status 404; a non-empty collection gives the sheet with status 200; a thrown
  error gives the response of the \<^verbatim>\<open>catch\<close> clause, with status 500.
\<close>

theorem no_results_response:
  assumes key: "truthy_string (GOOGLE_MAPS_API_KEY env)"
    and body: "json request = Inr (JsonObject b)" "truthy_string (serviceType b)"
      "truthy_string (location b)"
    and run: "getAllPlaces up (the (serviceType b)) (the (location b))
                (the (GOOGLE_MAPS_API_KEY env)) = (res, tr)"
  shows "(res = Inr [] \<longrightarrow> POST env up request = (JsonResponse no_results_message 404, tr))
       \<and> (\<forall>places. res = Inr places \<and> places \<noteq> [] \<longrightarrow>
            (\<exists>h. POST env up request = (FileResponse (generateExcel places) 200 h, tr)))
       \<and> (\<forall>e. res = Inl e \<longrightarrow>
            POST env up request = (catch_error e, tr) \<and> response_status (catch_error e) = 500)"
  using assms by (auto simp: POST_def)

theorem no_results_response_witness:
  "POST \<lparr>GOOGLE_MAPS_API_KEY = Some ''k''\<rparr> (scripted_upstream empty_page sample_details)
     \<lparr>json = Inr (JsonObject \<lparr>serviceType = Some ''cafe'', location = Some ''Lisboa''\<rparr>)\<rparr>
     = (JsonResponse no_results_message 404, empty_trace)"
proof -
  let ?env = "\<lparr>GOOGLE_MAPS_API_KEY = Some ''k''\<rparr>"
  let ?b = "\<lparr>serviceType = Some ''cafe'', location = Some ''Lisboa''\<rparr>"
  have run: "getAllPlaces (scripted_upstream empty_page sample_details) (the (serviceType ?b))
      (the (location ?b)) (the (GOOGLE_MAPS_API_KEY ?env)) = (Inr [], empty_trace)"
    by (simp add: empty_run)
  have "truthy_string (GOOGLE_MAPS_API_KEY ?env)"
    "json \<lparr>json = Inr (JsonObject ?b)\<rparr> = Inr (JsonObject ?b)"
    "truthy_string (serviceType ?b)" "truthy_string (location ?b)"
    by (simp_all add: truthy_string_def)
  from no_results_response [OF this run] show ?thesis by simp
qed

text \<open>
  Claim C10, as stated, fails in its message: the \<^verbatim>\<open>catch\<close> clause answers with the message
  of the thrown error, so an unparseable body is answered with the text of the parser and not
  with the generic message.
\<close>

theorem generic_message_counterexample:
  "POST \<lparr>GOOGLE_MAPS_API_KEY = Some ''k''\<rparr> (scripted_upstream sample_pages sample_details)
     \<lparr>json = Inl (Error ''Unexpected end of JSON input'')\<rparr>
     = (JsonResponse ''Unexpected end of JSON input'' 500, [])
   \<and> ''Unexpected end of JSON input'' \<noteq> generic_message"
  by (simp add: POST_def truthy_string_def catch_error_def generic_message_def)

text \<open>
  Claim C10, amended. When reading the body throws, the response has status 500 and is not
  the invalid-input response, and no outbound call is made. With the credential configured it
  is the response of the \<^verbatim>\<open>catch\<close> clause, whose message is the message of the thrown error
  (the text of the parser), and the generic message only when the thrown value is not an error
  object; without the credential it is the missing-credential response.
\<close>

theorem unparseable_body_is_500:
  assumes "json request = Inl e"
  shows "response_status (fst (POST env up request)) = 500
       \<and> fst (POST env up request) \<noteq> JsonResponse invalid_input_message 400
       \<and> snd (POST env up request) = []
       \<and> (truthy_string (GOOGLE_MAPS_API_KEY env) \<longrightarrow>
            POST env up request
              = (JsonResponse (case e of Error m \<Rightarrow> m | NonError \<Rightarrow> generic_message) 500, []))
       \<and> (\<not> truthy_string (GOOGLE_MAPS_API_KEY env) \<longrightarrow>
            POST env up request = (JsonResponse missing_key_message 500, []))"
  using assms by (auto simp: POST_def Let_def catch_error_def)

theorem unparseable_body_is_500_witness:
  "POST \<lparr>GOOGLE_MAPS_API_KEY = Some ''k''\<rparr> (scripted_upstream sample_pages sample_details)
     \<lparr>json = Inl NonError\<rparr>
     = (JsonResponse generic_message 500, [])"
  using unparseable_body_is_500 [of "\<lparr>json = Inl NonError\<rparr>" NonError
      "\<lparr>GOOGLE_MAPS_API_KEY = Some ''k''\<rparr>" "scripted_upstream sample_pages sample_details"]
  by (simp add: truthy_string_def)

section \<open>The cells of a row\<close>

lemma businessType_filter:
  "businessType tys =
     join '', '' (map replace_underscores
       (filter (\<lambda>t. t \<noteq> ''point_of_interest'' \<and> t \<noteq> ''establishment'') tys))"
  by (simp add: businessType_def)

lemma no_underscore_replaced: "CHR ''_'' \<notin> set (replace_underscores t)"
  by (auto simp: replace_underscores_def)

lemma replace_underscores_no_space:
  "CHR '' '' \<notin> set (replace_underscores t) \<Longrightarrow> replace_underscores t = t"
  by (induction t) (auto simp: replace_underscores_def split: if_splits)

lemma set_join: "set (join sep xs) \<subseteq> set sep \<union> \<Union> (set ` set xs)"
  by (induction sep xs rule: join.induct) auto

lemma no_underscore_join:
  assumes "\<forall>x \<in> set xs. CHR ''_'' \<notin> set x"
  shows "CHR ''_'' \<notin> set (join '', '' xs)"
proof
  assume "CHR ''_'' \<in> set (join '', '' xs)"
  with set_join [of "'', ''" xs] have "CHR ''_'' \<in> set '', '' \<union> \<Union> (set ` set xs)"
    by blast
  with assms show False by auto
qed

lemma rendered_tag_not_generic:
  assumes "t \<noteq> ''point_of_interest'' \<and> t \<noteq> ''establishment''"
  shows "replace_underscores t \<noteq> ''point_of_interest''"
    and "replace_underscores t \<noteq> ''establishment''"
proof -
  show "replace_underscores t \<noteq> ''point_of_interest''"
  proof
    assume "replace_underscores t = ''point_of_interest''"
    then have "CHR ''_'' \<in> set (replace_underscores t)" by simp
    with no_underscore_replaced show False by blast
  qed
  show "replace_underscores t \<noteq> ''establishment''"
  proof
    assume e: "replace_underscores t = ''establishment''"
    then have "CHR '' '' \<notin> set (replace_underscores t)" by simp
    from replace_underscores_no_space [OF this] e assms show False by simp
  qed
qed

text \<open>
  Claim C8, as stated, fails: when no tag is left after the filter, the cell is not the
  (empty) joined list but the text \<^verbatim>\<open>N/A\<close>; and a tag that is longer than
  \<^verbatim>\<open>establishment\<close> is kept, so that the cell can contain that word.
\<close>

theorem business_type_cell_counterexample:
  "businessType [''point_of_interest'', ''establishment''] = []
   \<and> cell_business_type
        (addRow (with_defaults
           ((sample_item ''a'')\<lparr>types := [''point_of_interest'', ''establishment'']\<rparr>)))
      = CellText ''N/A''
   \<and> cell_business_type
        (addRow (with_defaults ((sample_item ''a'')\<lparr>types := [''establishment_hall'']\<rparr>)))
      = CellText ''establishment hall''
   \<and> sublist ''establishment'' ''establishment hall''"
proof -
  have "prefix ''establishment'' ''establishment hall''" by simp
  then have "sublist ''establishment'' ''establishment hall''" by (rule prefix_imp_sublist)
  then show ?thesis
    by (simp add: businessType_def replace_underscores_def addRow_def
      with_defaults_def search_item.defs PlaceSearchResult.defs or_string_def sample_item_def)
qed

text \<open>
  Claim C8, amended. In every exported row the business-type cell is the list of the place's
  category tags without the tags \<^verbatim>\<open>point_of_interest\<close> and \<^verbatim>\<open>establishment\<close>, each remaining
  tag with its underscores replaced by spaces, joined by a comma and a space; when that text
  is empty the cell is \<^verbatim>\<open>N/A\<close>. No tag of the list is \<^verbatim>\<open>point_of_interest\<close> or
  \<^verbatim>\<open>establishment\<close>, and the cell has no underscore, so it never contains
  \<^verbatim>\<open>point_of_interest\<close>.
\<close>

theorem business_type_cell:
  assumes "i < length places"
  shows "let tags = map replace_underscores
                      (filter (\<lambda>t. t \<noteq> ''point_of_interest'' \<and> t \<noteq> ''establishment'')
                         (types (places ! i)));
             shown = (if join '', '' tags = [] then ''N/A'' else join '', '' tags)
         in cell_business_type (rows (generateExcel places) ! i) = CellText shown
          \<and> ''point_of_interest'' \<notin> set tags \<and> ''establishment'' \<notin> set tags
          \<and> CHR ''_'' \<notin> set shown \<and> \<not> sublist ''point_of_interest'' shown"
proof -
  define tags where "tags = map replace_underscores
                      (filter (\<lambda>t. t \<noteq> ''point_of_interest'' \<and> t \<noteq> ''establishment'')
                         (types (places ! i)))"
  define shown where "shown = (if join '', '' tags = [] then ''N/A'' else join '', '' tags)"
  have cell: "cell_business_type (rows (generateExcel places) ! i) = CellText shown"
    using assms
    by (simp add: generateExcel_def addRow_def or_string_def businessType_filter shown_def
        tags_def)
  have generic: "''point_of_interest'' \<notin> set tags" "''establishment'' \<notin> set tags"
    using rendered_tag_not_generic by (fastforce simp: tags_def)+
  have "\<forall>x \<in> set tags. CHR ''_'' \<notin> set x"
    by (auto simp: tags_def no_underscore_replaced)
  from no_underscore_join [OF this] have under: "CHR ''_'' \<notin> set shown"
    by (simp add: shown_def)
  have "\<not> sublist ''point_of_interest'' shown"
  proof
    assume "sublist ''point_of_interest'' shown"
    from set_mono_sublist [OF this] have "CHR ''_'' \<in> set shown" by simp
    with under show False by blast
  qed
  with cell generic under show ?thesis
    by (simp add: Let_def tags_def [symmetric] shown_def [symmetric])
qed

theorem business_type_cell_witness:
  "cell_business_type
     (rows (generateExcel
        [with_defaults ((sample_item ''a'')\<lparr>types :=
           [''point_of_interest'', ''beauty_salon'', ''establishment'', ''hair_care'']\<rparr>)]) ! 0)
     = CellText ''beauty salon, hair care''"
  using business_type_cell [of 0
      "[with_defaults ((sample_item ''a'')\<lparr>types :=
           [''point_of_interest'', ''beauty_salon'', ''establishment'', ''hair_care'']\<rparr>)]"]
  by (simp add: Let_def replace_underscores_def with_defaults_def search_item.defs
      PlaceSearchResult.defs sample_item_def)

text \<open>
  Claim C9. In every exported row, a place without a rating has the text \<^verbatim>\<open>N/A\<close> in the
  rating cell, which is neither the number zero nor a blank nor an empty text, and a place
  without a rating count has the number zero in the rating-count cell.
\<close>

theorem absent_rating_cells:
  assumes "i < length places"
  shows "(rating (places ! i) = None \<longrightarrow>
            cell_rating (rows (generateExcel places) ! i) = CellText ''N/A'')
       \<and> (user_ratings_total (places ! i) = None \<longrightarrow>
            cell_ratings_count (rows (generateExcel places) ! i) = CellNumber 0)
       \<and> CellText ''N/A'' \<noteq> CellNumber 0 \<and> CellText ''N/A'' \<noteq> CellBlank
       \<and> CellText ''N/A'' \<noteq> CellText []"
  using assms by (simp add: generateExcel_def addRow_def truthy_number_def)

theorem absent_rating_cells_witness:
  "rating (with_defaults (sample_item ''a'')) = None
   \<and> user_ratings_total (with_defaults (sample_item ''a'')) = None
   \<and> cell_rating (rows (generateExcel [with_defaults (sample_item ''a'')]) ! 0) = CellText ''N/A''
   \<and> cell_ratings_count (rows (generateExcel [with_defaults (sample_item ''a'')]) ! 0)
       = CellNumber 0"
  using absent_rating_cells [of 0 "[with_defaults (sample_item ''a'')]"]
  by (simp add: with_defaults_def search_item.defs PlaceSearchResult.defs sample_item_def)

end
